theory Spec2Isabelle
  imports Complex_Main
begin

section \<open>JavaScript values used by the shopping cart\<close>

text \<open>
  A JavaScript number is modelled as a real: the arithmetic of the cart is addition of
  prices and quantities, and the model adds exactly. A plain object is an association
  list in the order \<open>Object.entries\<close> enumerates it (insertion order, for property names
  that are not array indexes); a well-formed object has each name once.
  \<open>map_of\<close> is the property read \<open>obj[name]\<close> of an own property, \<open>None\<close> standing for
  \<open>undefined\<close>; the names that every object inherits (\<open>constructor\<close>, \<open>toString\<close>, ...)
  are not used as property, currency or product names.
\<close>

type_synonym number = real

type_synonym 'v object = "(string \<times> 'v) list"

definition wf_object :: "'v object \<Rightarrow> bool" where
  "wf_object obj = distinct (map fst obj)"

text \<open>\<open>{...obj, [k]: v}\<close>: an existing name keeps its place, a new one goes last.\<close>

fun assign :: "string \<Rightarrow> 'v \<Rightarrow> 'v object \<Rightarrow> 'v object" where
  "assign k v [] = [(k, v)]"
| "assign k v ((k', v') # obj) =
     (if k' = k then (k, v) # obj else (k', v') # assign k v obj)"

text \<open>
  \<open>x|0\<close> on an integer-valued number is the ToInt32 conversion (wrap into the signed
  32-bit range); on \<open>undefined\<close> it is 0. A selected index is an integer-valued number,
  an \<open>int\<close> of the model.
\<close>

definition ToInt32 :: "int \<Rightarrow> int" where
  "ToInt32 n = (n + 2147483648) mod 4294967296 - 2147483648"

definition bitor0 :: "int option \<Rightarrow> int" where
  "bitor0 v = (case v of None \<Rightarrow> 0 | Some n \<Rightarrow> ToInt32 n)"

text \<open>\<open>array[i]\<close> for an integer \<open>i\<close>: \<open>undefined\<close> outside the array, never an error.\<close>

definition element_at :: "'a list \<Rightarrow> int \<Rightarrow> 'a option" where
  "element_at xs i = (if 0 \<le> i \<and> i < int (length xs) then Some (xs ! nat i) else None)"

section \<open>Product options (ProductPropertyOptionType)\<close>

text \<open>
  An option of a property is a string, a number, or a shape
  \<open>{ additionalCost (optional), onSelect (optional), value (required) }\<close>.
\<close>

datatype scalar = Str string | Num number

typedecl callback

record shape =
  additionalCost :: "number object option"
  onSelect :: "callback option"
  value' :: scalar

datatype ProductPropertyOptionType = Scalar scalar | Shape shape

text \<open>The values the operand of \<open>|| 0\<close> in calculateAdditionalCost can take.\<close>

datatype operand = JSfalse | JSundefined | JSnumber number

text \<open>\<open>v || 0\<close>: \<open>false\<close>, \<open>undefined\<close> and the number 0 are falsy.\<close>

definition or_zero :: "operand \<Rightarrow> number" where
  "or_zero v = (case v of JSnumber x \<Rightarrow> (if x = 0 then 0 else x) | _ \<Rightarrow> 0)"

text \<open>
  \<open>typeof selectedOption === 'object' &&
     (selectedOption.additionalCost && selectedOption.additionalCost[currency])\<close>
\<close>

definition costOperand :: "ProductPropertyOptionType option \<Rightarrow> string \<Rightarrow> operand" where
  "costOperand selectedOption currency =
     (case selectedOption of
        Some (Shape sh) \<Rightarrow>
          (case additionalCost sh of
             None \<Rightarrow> JSundefined
           | Some costs \<Rightarrow>
               (case map_of costs currency of None \<Rightarrow> JSundefined | Some x \<Rightarrow> JSnumber x))
      | _ \<Rightarrow> JSfalse)"

section \<open>Product.calculateAdditionalCost\<close>

text \<open>\<open>selectedPropertyIndexes[propertyName]|0\<close>\<close>

definition selectedIndex :: "int object \<Rightarrow> string \<Rightarrow> int" where
  "selectedIndex selectedPropertyIndexes propertyName =
     bitor0 (map_of selectedPropertyIndexes propertyName)"

text \<open>\<open>propertyOptions[selectedPropertyIndexes[propertyName]|0]\<close>\<close>

definition selectedOption ::
  "ProductPropertyOptionType list \<Rightarrow> int object \<Rightarrow> string \<Rightarrow> ProductPropertyOptionType option"
where
  "selectedOption propertyOptions selectedPropertyIndexes propertyName =
     element_at propertyOptions (selectedIndex selectedPropertyIndexes propertyName)"

text \<open>The reduce over \<open>Object.entries(properties)\<close>, from 0.\<close>

definition calculateAdditionalCost ::
  "ProductPropertyOptionType list object \<Rightarrow> int object \<Rightarrow> string \<Rightarrow> number"
where
  "calculateAdditionalCost properties selectedPropertyIndexes currency =
     fold (\<lambda>(propertyName, propertyOptions) sum.
             sum + or_zero (costOperand
               (selectedOption propertyOptions selectedPropertyIndexes propertyName) currency))
       properties 0"

text \<open>
  The specification's reading of the same sum. The selected option of a group is the
  one at the stored index, \<open>selectedIndexes[group] ?? 0\<close>; starting from 0, every group
  in turn adds the additionalCost of its selected option for the currency when that
  option is a shape whose additionalCost has the currency, and adds 0 otherwise.
\<close>

definition has_additionalCost :: "ProductPropertyOptionType \<Rightarrow> string \<Rightarrow> bool" where
  "has_additionalCost opt currency =
     (case opt of
        Scalar s \<Rightarrow> False
      | Shape sh \<Rightarrow>
          (case additionalCost sh of
             None \<Rightarrow> False
           | Some costs \<Rightarrow> map_of costs currency \<noteq> None))"

definition spec_contribution :: "ProductPropertyOptionType \<Rightarrow> string \<Rightarrow> number" where
  "spec_contribution opt currency =
     (if has_additionalCost opt currency
      then (case opt of
              Shape sh \<Rightarrow> the (map_of (the (additionalCost sh)) currency)
            | Scalar s \<Rightarrow> 0)
      else 0)"

definition storedIndex :: "int object \<Rightarrow> string \<Rightarrow> int" where
  "storedIndex selectedIndexes groupName =
     (case map_of selectedIndexes groupName of None \<Rightarrow> 0 | Some i \<Rightarrow> i)"

definition spec_additionalCost ::
  "ProductPropertyOptionType list object \<Rightarrow> int object \<Rightarrow> string \<Rightarrow> number"
where
  "spec_additionalCost optionGroups selectedIndexes currency =
     fold (\<lambda>(groupName, variants) total.
             total + spec_contribution (variants ! nat (storedIndex selectedIndexes groupName))
                       currency)
       optionGroups 0"

text \<open>
  A selected-index map is in range for the option groups when the index stored for
  every group (0 when none is stored) lies inside that group's option list.
\<close>

definition in_range :: "ProductPropertyOptionType list object \<Rightarrow> int object \<Rightarrow> bool" where
  "in_range optionGroups selectedIndexes =
     list_all (\<lambda>(groupName, variants).
                 0 \<le> storedIndex selectedIndexes groupName
               \<and> storedIndex selectedIndexes groupName < int (length variants))
       optionGroups"

text \<open>The stored indexes are below \<open>2^31\<close>: \<open>|0\<close> leaves such an index, if not negative, as it is.\<close>

definition indexes_below_2_31 :: "int object \<Rightarrow> bool" where
  "indexes_below_2_31 selectedIndexes = list_all (\<lambda>(groupName, i). i < 2147483648) selectedIndexes"

section \<open>The Product component\<close>

text \<open>
  The props of Product that the cart logic reads, and the cart's line item
  (ProductType) with its productInfo (ProductInfoType).
\<close>

record ProductInfoType =
  name :: string
  prices :: "number object"
  path :: string
  imagePath :: string
  propertiesToShowInCart :: "string list"

record ProductProps = ProductInfoType +
  id' :: string
  currency :: string
  properties :: "ProductPropertyOptionType list object"

text \<open>
  The number a quantity input coerces to (\<open>+value\<close>): a finite number, NaN or an
  infinity. The component's state holds the quantity and the selected index of every
  property that has been changed.
\<close>

datatype jsnumber = NaN | PosInfinity | NegInfinity | Finite number

record ProductState =
  quantity :: jsnumber
  selectedPropertyIndexes :: "int object"

record ProductType =
  id' :: string
  quantity :: number
  properties :: "scalar option object"
  productInfo :: ProductInfoType

text \<open>
  Modelled from the spec: ProductPropertyInput.getOptionValue is not among the source
  files. The spec: generateCartProduct "resolves each option group to its selected
  variant's plain value (stripping the additionalCost/onSelect wrapper)". An
  \<open>undefined\<close> option (no option at the index) is left \<open>undefined\<close>.
\<close>

definition getOptionValue :: "ProductPropertyOptionType option \<Rightarrow> scalar option" where
  "getOptionValue opt =
     (case opt of
        None \<Rightarrow> None
      | Some (Scalar s) \<Rightarrow> Some s
      | Some (Shape sh) \<Rightarrow> Some (value' sh))"

text \<open>
  Product.generateCartProduct: both reduces start from the empty object and add one
  property per entry with \<open>{...acc, [name]: v}\<close>.
\<close>

definition generateCartProduct :: "ProductProps \<Rightarrow> number \<Rightarrow> int object \<Rightarrow> ProductType" where
  "generateCartProduct p qty selectedIndexes =
     \<lparr>id' = ProductProps.id' p,
      quantity = qty,
      properties =
        fold (\<lambda>(propName, options) obj.
                assign propName
                  (getOptionValue (element_at options (selectedIndex selectedIndexes propName)))
                  obj)
          (ProductProps.properties p) [],
      productInfo =
        \<lparr>name = name p,
         prices =
           fold (\<lambda>(cur, price) acc.
                   assign cur
                     (price + calculateAdditionalCost (ProductProps.properties p)
                                selectedIndexes cur)
                     acc)
             (prices p) [],
         path = path p,
         imagePath = imagePath p,
         propertiesToShowInCart = propertiesToShowInCart p\<rparr>\<rparr>"

text \<open>
  The price of Product.render:
  \<open>prices[currency] + calculateAdditionalCost(properties, selectedPropertyIndexes, currency)\<close>.
  \<open>None\<close> is the NaN that \<open>undefined + n\<close> gives when prices has no entry for the currency.
\<close>

definition render_price :: "ProductProps \<Rightarrow> ProductState \<Rightarrow> number option" where
  "render_price p st =
     (case map_of (prices p) (currency p) of
        None \<Rightarrow> None
      | Some base \<Rightarrow>
          Some (base + calculateAdditionalCost (ProductProps.properties p)
                         (selectedPropertyIndexes st) (currency p)))"

text \<open>
  Modelled from the spec: isNaturalNumber (helpers) is not among the source files. The
  spec: "only a positive integer (no fractional, no zero, no negative) is accepted".
\<close>

definition isNaturalNumber :: "jsnumber \<Rightarrow> bool" where
  "isNaturalNumber q = (case q of Finite x \<Rightarrow> 0 < x \<and> of_int \<lfloor>x\<rfloor> = x | _ \<Rightarrow> False)"

text \<open>
  handleQuantityValueChange: \<open>const quantity = +value;
  if (isNaturalNumber(quantity)) this.setState({ quantity })\<close>. The conversion of the
  input's text to a number is the language's ToNumber, the parameter \<open>toNumber\<close>.
\<close>

definition handleQuantityValueChange ::
  "(string \<Rightarrow> jsnumber) \<Rightarrow> string \<Rightarrow> ProductState \<Rightarrow> ProductState"
where
  "handleQuantityValueChange toNumber v st =
     (let q = toNumber v
      in if isNaturalNumber q then st\<lparr>ProductState.quantity := q\<rparr> else st)"

text \<open>The plain value of an option: the specification's reading of getOptionValue.\<close>

definition plainValue :: "ProductPropertyOptionType \<Rightarrow> scalar" where
  "plainValue opt = (case opt of Scalar s \<Rightarrow> s | Shape sh \<Rightarrow> value' sh)"

section \<open>The example application: generateProductKey and addProduct\<close>

text \<open>\<open>Array.prototype.join\<close> on the texts of the elements.\<close>

fun js_join :: "string \<Rightarrow> string list \<Rightarrow> string" where
  "js_join sep [] = []"
| "js_join sep [x] = x"
| "js_join sep (x # y # ys) = x @ sep @ js_join sep (y # ys)"

text \<open>
  The text join gives an element: nothing for \<open>undefined\<close>, a string as it is, and
  Number::toString for a number. Number::toString is the language's; the model takes it
  as the parameter \<open>numberToString\<close>.
\<close>

definition elementText :: "(number \<Rightarrow> string) \<Rightarrow> scalar option \<Rightarrow> string" where
  "elementText numberToString v =
     (case v of
        None \<Rightarrow> []
      | Some (Str t) \<Rightarrow> t
      | Some (Num x) \<Rightarrow> numberToString x)"

text \<open>
  An entry \<open>[name, value]\<close> of \<open>Object.entries\<close> is itself an array: join renders it by
  its toString, the name and the value joined by a comma.
\<close>

definition entryText :: "(number \<Rightarrow> string) \<Rightarrow> string \<times> scalar option \<Rightarrow> string" where
  "entryText numberToString e = js_join '','' [fst e, elementText numberToString (snd e)]"

text \<open>\<open>`${id}/${Object.entries(properties).join('_')}`\<close>\<close>

definition generateProductKey ::
  "(number \<Rightarrow> string) \<Rightarrow> string \<Rightarrow> scalar option object \<Rightarrow> string"
where
  "generateProductKey numberToString ident props =
     ident @ ''/'' @ js_join ''_'' (map (entryText numberToString) props)"

text \<open>
  The names and the value texts of a properties object do not hold the characters that
  the key uses as separators: no comma and no underscore in a name, no underscore in the
  text of a value.
\<close>

definition key_safe :: "(number \<Rightarrow> string) \<Rightarrow> scalar option object \<Rightarrow> bool" where
  "key_safe numberToString props =
     list_all (\<lambda>(k, v). CHR '','' \<notin> set k \<and> CHR ''_'' \<notin> set k
                       \<and> CHR ''_'' \<notin> set (elementText numberToString v))
       props"

text \<open>
  The decimal text of an integer-valued number, which is what Number::toString gives for
  the integers of the examples.
\<close>

definition digit :: "nat \<Rightarrow> char" where
  "digit n = ''0123456789'' ! n"

fun digits :: "nat \<Rightarrow> string" where
  "digits n = (if n < 10 then [digit n] else digits (n div 10) @ [digit (n mod 10)])"

declare digits.simps [simp del]

definition decimalText :: "number \<Rightarrow> string" where
  "decimalText x = (if x < 0 then ''-'' else []) @ digits (nat \<lfloor>\<bar>x\<bar>\<rfloor>)"

text \<open>
  The state of the example App holds the cart collection under \<open>products\<close>; its other
  fields are the record's extension. addProduct is the updater passed to setState:
  \<open>cartProduct\<close> defaults to \<open>{ quantity: 0 }\<close> when the key is absent,
  \<open>restOfProducts\<close> is the collection without the key, and the new collection is
  \<open>{...restOfProducts, [key]: {...product, quantity: product.quantity + cartProduct.quantity}}\<close>.
  The currency argument is not used.
\<close>

record AppState =
  products :: "ProductType object"

definition addProduct ::
  "string \<Rightarrow> ProductType \<Rightarrow> string \<Rightarrow> 'a AppState_scheme \<Rightarrow> 'a AppState_scheme"
where
  "addProduct key newProduct cur st =
     (let cartProductQuantity =
            (case map_of (products st) key of
               None \<Rightarrow> 0
             | Some cartProduct \<Rightarrow> quantity cartProduct);
          restOfProducts = filter (\<lambda>(k, _). k \<noteq> key) (products st)
      in st\<lparr>products :=
               assign key
                 (newProduct\<lparr>quantity := quantity newProduct + cartProductQuantity\<rparr>)
                 restOfProducts\<rparr>)"

section \<open>addProduct on a store of objects\<close>

text \<open>
  To speak of mutation, the objects addProduct touches are placed in a store: the cart
  collection is an object whose properties refer to line-item objects, and the state
  holds a reference to the collection. An address is an index of the store; creating an
  object appends it. addProduct creates the default \<open>{ quantity: 0 }\<close> (when the key is
  absent), the rest object \<open>restOfProducts\<close>, the copy \<open>{...product, quantity: \<dots>}\<close> and
  the new collection, and returns the reference that setState stores under
  \<open>products\<close>. \<open>None\<close> is a store outside the types of the program (a dangling
  reference, or an object of another kind where a collection or a line item is read).
\<close>

type_synonym addr = nat

datatype heapObject =
    ProductsObject "addr object"
  | ProductObject ProductType
  | QuantityObject number

type_synonym store = "heapObject list"

definition deref :: "store \<Rightarrow> addr \<Rightarrow> heapObject option" where
  "deref h a = (if a < length h then Some (h ! a) else None)"

definition alloc :: "heapObject \<Rightarrow> store \<Rightarrow> addr \<times> store" where
  "alloc obj h = (length h, h @ [obj])"

text \<open>\<open>cartProduct.quantity\<close>, with the default object created when the key is absent.\<close>

definition cartProductQuantity :: "string \<Rightarrow> addr object \<Rightarrow> store \<Rightarrow> (number \<times> store) option" where
  "cartProductQuantity key entries h =
     (case map_of entries key of
        None \<Rightarrow> Some (0, snd (alloc (QuantityObject 0) h))
      | Some r \<Rightarrow>
          (case deref h r of
             Some (ProductObject cartProduct) \<Rightarrow> Some (quantity cartProduct, h)
           | Some (QuantityObject q) \<Rightarrow> Some (q, h)
           | _ \<Rightarrow> None))"

definition addProduct_store ::
  "string \<Rightarrow> addr \<Rightarrow> string \<Rightarrow> addr \<times> store \<Rightarrow> (addr \<times> store) option"
where
  "addProduct_store key productRef cur st =
     (case deref (snd st) (fst st) of
        Some (ProductsObject entries) \<Rightarrow>
          (case deref (snd st) productRef of
             Some (ProductObject newProduct) \<Rightarrow>
               (case cartProductQuantity key entries (snd st) of
                  None \<Rightarrow> None
                | Some (q, h1) \<Rightarrow>
                    (let restOfProducts = filter (\<lambda>(k, _). k \<noteq> key) entries;
                         (restRef, h2) = alloc (ProductsObject restOfProducts) h1;
                         (itemRef, h3) =
                           alloc (ProductObject
                                    (newProduct\<lparr>quantity := quantity newProduct + q\<rparr>)) h2
                     in Some (alloc (ProductsObject (assign key itemRef restOfProducts)) h3)))
           | _ \<Rightarrow> None)
      | _ \<Rightarrow> None)"

text \<open>A cart in the store: a collection object whose every property refers to a line item.\<close>

definition is_item :: "store \<Rightarrow> addr \<Rightarrow> bool" where
  "is_item h r = (case deref h r of Some (ProductObject p) \<Rightarrow> True | _ \<Rightarrow> False)"

definition wf_cart :: "store \<Rightarrow> addr \<Rightarrow> bool" where
  "wf_cart h ref =
     (case deref h ref of
        Some (ProductsObject entries) \<Rightarrow> list_all (\<lambda>(k, r). is_item h r) entries
      | _ \<Rightarrow> False)"

text \<open>The collection a reference stands for, its line items read from the store.\<close>

definition item_at :: "store \<Rightarrow> addr \<Rightarrow> ProductType option" where
  "item_at h r = (case deref h r of Some (ProductObject p) \<Rightarrow> Some p | _ \<Rightarrow> None)"

definition collection_at :: "store \<Rightarrow> addr \<Rightarrow> ProductType object" where
  "collection_at h ref =
     (case deref h ref of
        Some (ProductsObject entries) \<Rightarrow>
          List.map_filter (\<lambda>(k, r). map_option (Pair k) (item_at h r)) entries
      | _ \<Rightarrow> [])"

section \<open>The localization scope of render\<close>

text \<open>
  render passes getLocalization a parameter object with four data properties (name,
  quantity, price, currency) and two accessor properties, whose getters are
  \<open>return getLocalization(currency, localizationScope)\<close> and
  \<open>return getLocalization(name, localizationScope)\<close>. A property of the object is a
  datum or such a getter, which the model records by the id it passes on.
\<close>

datatype datum = DString string | DNumber jsnumber

datatype property = Data datum | GetLocalization string

definition localizationScope ::
  "string \<Rightarrow> jsnumber \<Rightarrow> jsnumber \<Rightarrow> string \<Rightarrow> property object"
where
  "localizationScope nm qty price cur =
     [(''name'', Data (DString nm)),
      (''quantity'', Data (DNumber qty)),
      (''price'', Data (DNumber price)),
      (''currency'', Data (DString cur)),
      (''localizedCurrency'', GetLocalization cur),
      (''localizedName'', GetLocalization nm)]"

definition render_scope :: "ProductProps \<Rightarrow> ProductState \<Rightarrow> property object" where
  "render_scope p st =
     localizationScope (name p) (ProductState.quantity st)
       (case render_price p st of None \<Rightarrow> NaN | Some x \<Rightarrow> Finite x)
       (currency p)"

text \<open>
  getLocalization is a prop, supplied by the caller. What it does with the parameter
  object is a sequence of property reads, each continued with the value read, ending in
  the result (a string or an element, the type \<open>'r\<close>).
\<close>

datatype 'r param = PUndefined | PString string | PNumber jsnumber | PLocalized 'r

datatype 'r reader = Return 'r | Read string "'r param \<Rightarrow> 'r reader"

definition param_of :: "datum \<Rightarrow> 'r param" where
  "param_of d = (case d of DString t \<Rightarrow> PString t | DNumber x \<Rightarrow> PNumber x)"

text \<open>
  Running a reader against the scope, with a log of what happens: reading a data
  property yields its value; reading an accessor property runs its getter, which calls
  the same getLocalization with the getter's id and the same scope, and yields what
  that call returns. The fuel bounds the number of steps; \<open>None\<close> is a run that has
  not returned within it (the getters of a scope can call each other for ever). The log
  is kept in either case.
\<close>

datatype event = Accessed string | Called string

fun run ::
  "nat \<Rightarrow> (string \<Rightarrow> 'r reader) \<Rightarrow> property object \<Rightarrow> 'r reader \<Rightarrow> event list
     \<Rightarrow> 'r option \<times> event list"
where
  "run 0 getLocalization scope prog evs = (None, evs)"
| "run (Suc n) getLocalization scope (Return r) evs = (Some r, evs)"
| "run (Suc n) getLocalization scope (Read p k) evs =
     (case map_of scope p of
        None \<Rightarrow> run n getLocalization scope (k PUndefined) (evs @ [Accessed p])
      | Some (Data d) \<Rightarrow> run n getLocalization scope (k (param_of d)) (evs @ [Accessed p])
      | Some (GetLocalization ident) \<Rightarrow>
          (case run n getLocalization scope (getLocalization ident)
                  (evs @ [Accessed p, Called ident]) of
             (None, evs') \<Rightarrow> (None, evs')
           | (Some r, evs') \<Rightarrow> run n getLocalization scope (k (PLocalized r)) evs'))"

text \<open>The ids of the recursive calls in a log.\<close>

fun calls_of :: "event list \<Rightarrow> string list" where
  "calls_of [] = []"
| "calls_of (Called ident # es) = ident # calls_of es"
| "calls_of (Accessed p # es) = calls_of es"

text \<open>The ids of the getters of the accessor properties read in a log.\<close>

fun getters_read :: "property object \<Rightarrow> event list \<Rightarrow> string list" where
  "getters_read scope [] = []"
| "getters_read scope (Called ident # es) = getters_read scope es"
| "getters_read scope (Accessed p # es) =
     (case map_of scope p of
        Some (GetLocalization ident) \<Rightarrow> ident # getters_read scope es
      | _ \<Rightarrow> getters_read scope es)"

text \<open>The three calls of render: the price, the quantity label and the button.\<close>

definition render_localizations ::
  "nat \<Rightarrow> (string \<Rightarrow> 'r reader) \<Rightarrow> ProductProps \<Rightarrow> ProductState
     \<Rightarrow> ('r option \<times> event list) list"
where
  "render_localizations n getLocalization p st =
     map (\<lambda>ident. run n getLocalization (render_scope p st) (getLocalization ident) [])
       [''price'', ''quantityLabel'', ''addToCart'']"

section \<open>Example data\<close>

text \<open>
  The product of examples/example1/app.js (two option groups, the last option of each
  a shape with an additional cost), and a group whose first option carries a cost.
\<close>

definition purple :: ProductPropertyOptionType where
  "purple = Shape \<lparr>additionalCost = Some [(''GBP'', 10), (''EUR'', 15), (''USD'', 20)],
                    onSelect = None, value' = Str ''purple''\<rparr>"

definition yellow :: ProductPropertyOptionType where
  "yellow = Shape \<lparr>additionalCost = Some [(''GBP'', 1), (''EUR'', 2), (''USD'', 3.5)],
                    onSelect = None, value' = Str ''yellow''\<rparr>"

definition macbookCase_properties :: "ProductPropertyOptionType list object" where
  "macbookCase_properties =
     [(''colour'', [Scalar (Str ''red''), Scalar (Str ''green''), purple]),
      (''additionalColour'', [Scalar (Str ''red''), Scalar (Str ''green''), yellow])]"

definition purpleFirst_properties :: "ProductPropertyOptionType list object" where
  "purpleFirst_properties = [(''colour'', [purple, Scalar (Str ''red'')])]"

text \<open>
  A group of \<open>2^31 + 1\<close> options, the last one purple, and a product that has it.
\<close>

definition longList_properties :: "ProductPropertyOptionType list object" where
  "longList_properties =
     [(''colour'', replicate 2147483648 (Scalar (Str ''red'')) @ [purple])]"

definition longCase :: ProductProps where
  "longCase =
     \<lparr>name = ''case'',
      prices = [(''USD'', 70)],
      path = ''/shop/case/'',
      imagePath = ''case.jpeg'',
      propertiesToShowInCart = [''colour''],
      ProductProps.id' = ''case'',
      currency = ''USD'',
      ProductProps.properties = longList_properties\<rparr>"

definition macbookCase :: ProductProps where
  "macbookCase =
     \<lparr>name = ''macbookCase'',
      prices = [(''GBP'', 50), (''EUR'', 60), (''USD'', 70)],
      path = ''/shop/macbook-case/'',
      imagePath = ''https://www.solarleague.org/shop/macbook-case/1-483x321.jpeg'',
      propertiesToShowInCart = [''colour'', ''additionalColour''],
      ProductProps.id' = ''macbook-case'',
      currency = ''USD'',
      ProductProps.properties = macbookCase_properties\<rparr>"

text \<open>The product of the specification's price example.\<close>

definition yellowCase :: ProductProps where
  "yellowCase =
     \<lparr>name = ''case'',
      prices = [(''USD'', 70)],
      path = ''/shop/case/'',
      imagePath = ''case.jpeg'',
      propertiesToShowInCart = [''colour''],
      ProductProps.id' = ''case'',
      currency = ''USD'',
      ProductProps.properties =
        [(''colour'',
          [Scalar (Str ''red''),
           Shape \<lparr>additionalCost = Some [(''USD'', 3.5)], onSelect = None,
                  value' = Str ''yellow''\<rparr>])]\<rparr>"

text \<open>A line item of quantity \<open>q\<close>, and ToNumber on a few input texts.\<close>

definition redCase :: "number \<Rightarrow> ProductType" where
  "redCase q =
     \<lparr>id' = ''m'',
      quantity = q,
      properties = [(''colour'', Some (Str ''red''))],
      productInfo =
        \<lparr>name = ''case'', prices = [(''USD'', 70)], path = ''/shop/case/'',
         imagePath = ''case.jpeg'', propertiesToShowInCart = [''colour'']\<rparr>\<rparr>"

definition inputNumber :: "string \<Rightarrow> jsnumber" where
  "inputNumber v =
     (if v = ''3'' then Finite 3
      else if v = ''2.5'' then Finite 2.5
      else if v = ''0'' then Finite 0
      else if v = ''-4'' then Finite (- 4)
      else NaN)"

definition initialState :: ProductState where
  "initialState = \<lparr>ProductState.quantity = Finite 1, selectedPropertyIndexes = []\<rparr>"

text \<open>A store with a cart of one line item (address 1) and an incoming item (address 2).\<close>

definition cartStore :: store where
  "cartStore =
     [ProductObject (redCase 1),
      ProductsObject [(''m/colour,red'', 0)],
      ProductObject (redCase 2)]"

text \<open>
  A getLocalization whose price template reads the localized currency and the price,
  and whose other templates read nothing.
\<close>

definition exampleLocalization :: "string \<Rightarrow> string reader" where
  "exampleLocalization ident =
     (if ident = ''price''
      then Read ''localizedCurrency''
             (\<lambda>c. Read ''price''
                (\<lambda>p. Return (''Price: '' @ (case c of PLocalized t \<Rightarrow> t | _ \<Rightarrow> []))))
      else if ident = ''quantityLabel'' then Return ''Quantity:''
      else if ident = ''addToCart'' then Return ''Add to cart''
      else if ident = ''USD'' then Return ''$''
      else Return ident)"

section \<open>Properties of calculateAdditionalCost\<close>

lemma fold_plus_sum_list:
  "fold (\<lambda>x (s::number). s + f x) xs a = a + sum_list (map f xs)"
  by (induction xs arbitrary: a) (simp_all add: add.assoc)

lemma calculateAdditionalCost_sum_list:
  "calculateAdditionalCost props sel cur =
     sum_list (map (\<lambda>(propertyName, propertyOptions).
                 or_zero (costOperand (selectedOption propertyOptions sel propertyName) cur))
               props)"
proof -
  have "(\<lambda>(propertyName, propertyOptions) sum.
           sum + or_zero (costOperand (selectedOption propertyOptions sel propertyName) cur))
      = (\<lambda>x (s::number). s + (\<lambda>(propertyName, propertyOptions).
           or_zero (costOperand (selectedOption propertyOptions sel propertyName) cur)) x)"
    by (simp add: fun_eq_iff split: prod.splits)
  then show ?thesis
    unfolding calculateAdditionalCost_def by (simp add: fold_plus_sum_list)
qed

lemma or_zero_costOperand_Some:
  "or_zero (costOperand (Some opt) cur) = spec_contribution opt cur"
  by (cases opt)
     (auto simp: or_zero_def costOperand_def spec_contribution_def has_additionalCost_def
           split: option.splits)

lemma or_zero_costOperand_None [simp]:
  "or_zero (costOperand None cur) = 0"
  by (simp add: or_zero_def costOperand_def)

lemma ToInt32_id:
  "- 2147483648 \<le> n \<Longrightarrow> n < 2147483648 \<Longrightarrow> ToInt32 n = n"
  by (simp add: ToInt32_def)

lemma map_of_assign:
  "map_of (assign k v obj) = (map_of obj)(k \<mapsto> v)"
  by (induction obj) (auto simp: fun_eq_iff)

lemma selectedOption_in_range:
  assumes "0 \<le> selectedIndex sel g" and "selectedIndex sel g < int (length opts)"
  shows "selectedOption opts sel g = Some (opts ! nat (selectedIndex sel g))"
  using assms by (simp add: selectedOption_def element_at_def)

lemma selectedOption_out_of_range:
  assumes "selectedIndex sel g < 0 \<or> int (length opts) \<le> selectedIndex sel g"
  shows "selectedOption opts sel g = None"
  using assms by (auto simp: selectedOption_def element_at_def)

text \<open>A sum over the entries of a well-formed object splits off the entry of one name.\<close>

lemma sum_list_split_name:
  fixes F :: "string \<times> 'v \<Rightarrow> number"
  assumes "distinct (map fst obj)" and "map_of obj g = Some v"
  shows "sum_list (map F obj) = F (g, v) + sum_list (map F (filter (\<lambda>(n, _). n \<noteq> g) obj))"
  using assms
proof (induction obj)
  case Nil
  then show ?case by simp
next
  case (Cons e obj)
  obtain n w where e: "e = (n, w)" by (cases e)
  show ?case
  proof (cases "n = g")
    case True
    with Cons.prems e have v: "w = v" and notin: "g \<notin> fst ` set obj" by auto
    have "filter (\<lambda>(n, _). n \<noteq> g) obj = obj"
      using notin by (auto simp: filter_id_conv image_iff)
    with True e v show ?thesis by simp
  next
    case False
    with Cons.prems e have "distinct (map fst obj)" and "map_of obj g = Some v" by auto
    with Cons.IH have "sum_list (map F obj)
        = F (g, v) + sum_list (map F (filter (\<lambda>(n, _). n \<noteq> g) obj))" by simp
    with False e show ?thesis by simp
  qed
qed

lemma calculateAdditionalCost_split:
  assumes "wf_object props" and "map_of props g = Some opts"
  shows "calculateAdditionalCost props sel cur =
           or_zero (costOperand (selectedOption opts sel g) cur)
         + calculateAdditionalCost (filter (\<lambda>(n, _). n \<noteq> g) props) sel cur"
  using sum_list_split_name [of props g opts
      "\<lambda>(propertyName, propertyOptions).
         or_zero (costOperand (selectedOption propertyOptions sel propertyName) cur)"]
    assms
  by (simp add: calculateAdditionalCost_sum_list wf_object_def)

lemma calculateAdditionalCost_other_index:
  assumes "\<forall>(n, opts) \<in> set props. map_of sel n = map_of sel' n"
  shows "calculateAdditionalCost props sel cur
       = calculateAdditionalCost props sel' cur"
proof -
  have "map (\<lambda>(propertyName, propertyOptions).
               or_zero (costOperand (selectedOption propertyOptions sel propertyName) cur))
          props
      = map (\<lambda>(propertyName, propertyOptions).
               or_zero (costOperand (selectedOption propertyOptions sel' propertyName) cur))
          props"
    using assms by (auto simp: selectedOption_def selectedIndex_def)
  then show ?thesis
    unfolding calculateAdditionalCost_sum_list by (rule arg_cong)
qed

text \<open>
  The sum of the code as a fold over the entries, and folds of equal summands.
\<close>

lemma calculateAdditionalCost_fold:
  "calculateAdditionalCost props sel cur =
     fold (\<lambda>e s. s + (case e of (propertyName, propertyOptions) \<Rightarrow>
                         or_zero (costOperand (selectedOption propertyOptions sel propertyName) cur)))
       props 0"
proof -
  have "(\<lambda>(propertyName, propertyOptions) sum.
           sum + or_zero (costOperand (selectedOption propertyOptions sel propertyName) cur))
      = (\<lambda>e (s::number). s + (case e of (propertyName, propertyOptions) \<Rightarrow>
           or_zero (costOperand (selectedOption propertyOptions sel propertyName) cur)))"
    by (simp add: fun_eq_iff split: prod.splits)
  then show ?thesis by (simp add: calculateAdditionalCost_def)
qed

lemma spec_additionalCost_fold:
  "spec_additionalCost props sel cur =
     fold (\<lambda>e s. s + (case e of (groupName, variants) \<Rightarrow>
                         spec_contribution (variants ! nat (storedIndex sel groupName)) cur))
       props 0"
proof -
  have "(\<lambda>(groupName, variants) total.
           total + spec_contribution (variants ! nat (storedIndex sel groupName)) cur)
      = (\<lambda>e (s::number). s + (case e of (groupName, variants) \<Rightarrow>
           spec_contribution (variants ! nat (storedIndex sel groupName)) cur))"
    by (simp add: fun_eq_iff split: prod.splits)
  then show ?thesis by (simp add: spec_additionalCost_def)
qed

lemma fold_plus_cong:
  assumes "\<forall>e \<in> set xs. f e = g e"
  shows "fold (\<lambda>e (s::number). s + f e) xs a = fold (\<lambda>e s. s + g e) xs a"
  using assms by (induction xs arbitrary: a) simp_all

lemma fold_plus_zero:
  assumes "\<forall>e \<in> set xs. f e = 0"
  shows "fold (\<lambda>e (s::number). s + f e) xs 0 = 0"
  using assms by (induction xs) simp_all

lemma selectedIndex_stored:
  assumes "indexes_below_2_31 sel" and "0 \<le> storedIndex sel g"
  shows "selectedIndex sel g = storedIndex sel g"
proof (cases "map_of sel g")
  case None
  then show ?thesis by (simp add: selectedIndex_def storedIndex_def bitor0_def)
next
  case (Some i)
  then have "(g, i) \<in> set sel" by (rule map_of_SomeD)
  with assms(1) have "i < 2147483648"
    by (auto simp: indexes_below_2_31_def list_all_iff)
  moreover from assms(2) Some have "0 \<le> i" by (simp add: storedIndex_def)
  ultimately have "ToInt32 i = i" by (simp add: ToInt32_id)
  with Some show ?thesis by (simp add: selectedIndex_def storedIndex_def bitor0_def)
qed

lemma long_list_length:
  "length (replicate 2147483648 x @ [y]) = 2147483649"
  by simp

lemma long_list_last:
  "(replicate 2147483648 x @ [y]) ! 2147483648 = y"
  by (simp add: nth_append)

text \<open>
  C3, as stated, fails: \<open>|0\<close> turns an in-range index from \<open>2^31\<close> on into a negative
  one. In a group of \<open>2^31 + 1\<close> options the stored index \<open>2^31\<close> is in range and selects
  the last option, which costs 20, but the code adds 0.
\<close>

theorem calculateAdditionalCost_long_list_counterexample:
  "in_range longList_properties [(''colour'', 2147483648)]
   \<and> spec_additionalCost longList_properties [(''colour'', 2147483648)] ''USD'' = 20
   \<and> calculateAdditionalCost longList_properties [(''colour'', 2147483648)] ''USD'' = 0"
proof -
  have "in_range longList_properties [(''colour'', 2147483648)]"
    by (simp add: in_range_def longList_properties_def storedIndex_def)
  moreover
  have "spec_additionalCost longList_properties [(''colour'', 2147483648)] ''USD'' = 20"
  proof -
    have "spec_additionalCost longList_properties [(''colour'', 2147483648)] ''USD''
        = spec_contribution
            ((replicate 2147483648 (Scalar (Str ''red'')) @ [purple]) ! 2147483648) ''USD''"
      by (simp add: spec_additionalCost_def longList_properties_def storedIndex_def)
    also have "\<dots> = spec_contribution purple ''USD''"
      by (simp only: long_list_last)
    also have "\<dots> = 20"
      by (simp add: spec_contribution_def has_additionalCost_def purple_def)
    finally show ?thesis .
  qed
  moreover
  have "calculateAdditionalCost longList_properties [(''colour'', 2147483648)] ''USD'' = 0"
    by (simp add: calculateAdditionalCost_def longList_properties_def selectedOption_def
          selectedIndex_def bitor0_def ToInt32_def element_at_def costOperand_def or_zero_def)
  ultimately show ?thesis by simp
qed

text \<open>
  C3, amended. For an in-range selected-index map whose indexes are below \<open>2^31\<close>,
  calculateAdditionalCost is the sum, added group by group from 0 in the order of the
  properties, of the selected option's additionalCost for the currency when the
  selected option is a shape whose additionalCost has the currency, and of 0 otherwise
  (a bare string or number adds nothing); it is 0 when no selected option is such a
  shape.
\<close>

theorem calculateAdditionalCost_in_range:
  assumes "in_range props sel" and "indexes_below_2_31 sel"
  shows "calculateAdditionalCost props sel cur = spec_additionalCost props sel cur
       \<and> (list_all (\<lambda>(groupName, variants).
              \<not> has_additionalCost (variants ! nat (storedIndex sel groupName)) cur)
            props
          \<longrightarrow> calculateAdditionalCost props sel cur = 0)"
proof -
  have each: "or_zero (costOperand (selectedOption variants sel groupName) cur)
            = spec_contribution (variants ! nat (storedIndex sel groupName)) cur"
    if "(groupName, variants) \<in> set props" for groupName variants
  proof -
    from assms(1) that have stored: "0 \<le> storedIndex sel groupName"
      and "storedIndex sel groupName < int (length variants)"
      by (auto simp: in_range_def list_all_iff)
    with selectedIndex_stored [OF assms(2) stored]
    have "0 \<le> selectedIndex sel groupName"
      and "selectedIndex sel groupName < int (length variants)"
      and "selectedIndex sel groupName = storedIndex sel groupName"
      by simp_all
    then show ?thesis
      by (simp add: selectedOption_in_range or_zero_costOperand_Some)
  qed
  have eq: "calculateAdditionalCost props sel cur = spec_additionalCost props sel cur"
    unfolding calculateAdditionalCost_fold spec_additionalCost_fold
    by (rule fold_plus_cong) (auto simp: each)
  have zero: "spec_additionalCost props sel cur = 0"
    if "list_all (\<lambda>(groupName, variants).
          \<not> has_additionalCost (variants ! nat (storedIndex sel groupName)) cur) props"
    unfolding spec_additionalCost_fold
    by (rule fold_plus_zero) (use that in \<open>auto simp: list_all_iff spec_contribution_def\<close>)
  from eq zero show ?thesis by simp
qed

theorem calculateAdditionalCost_in_range_witness:
  "in_range macbookCase_properties [(''colour'', 2), (''additionalColour'', 2)]
   \<and> indexes_below_2_31 [(''colour'', 2), (''additionalColour'', 2)]
   \<and> calculateAdditionalCost macbookCase_properties
         [(''colour'', 2), (''additionalColour'', 2)] ''USD'' = 23.5"
proof -
  have r: "in_range macbookCase_properties [(''colour'', 2), (''additionalColour'', 2)]"
    by (simp add: in_range_def macbookCase_properties_def storedIndex_def)
  have b: "indexes_below_2_31 [(''colour'', 2), (''additionalColour'', 2)]"
    by (simp add: indexes_below_2_31_def)
  have "spec_additionalCost macbookCase_properties
          [(''colour'', 2), (''additionalColour'', 2)] ''USD'' = 23.5"
    by (simp add: spec_additionalCost_def macbookCase_properties_def storedIndex_def
          spec_contribution_def has_additionalCost_def purple_def yellow_def)
  with calculateAdditionalCost_in_range [OF r b, of "''USD''"] r b show ?thesis by simp
qed

text \<open>
  C10, as stated, fails: an integer index at least the length of the option list can be
  wrapped into the list by \<open>|0\<close>. With one group of two options and the index
  4294967296 the code reads option 0 and the group contributes its cost, 20.
\<close>

theorem calculateAdditionalCost_wrapped_index_counterexample:
  "int (length [purple, Scalar (Str ''red'')]) \<le> 4294967296
   \<and> calculateAdditionalCost purpleFirst_properties [(''colour'', 4294967296)] ''USD'' = 20"
  by (simp add: calculateAdditionalCost_def purpleFirst_properties_def selectedOption_def
        selectedIndex_def bitor0_def ToInt32_def element_at_def costOperand_def or_zero_def
        purple_def)

text \<open>
  C10, amended. When the index stored for a group, converted by \<open>|0\<close>, is negative or at
  least the length of the group's option list, the lookup yields \<open>undefined\<close> (it does
  not fail) and the group contributes exactly 0: the sum is the sum without that group,
  whatever additionalCost the option at index 0 carries.
\<close>

theorem calculateAdditionalCost_out_of_range:
  assumes "wf_object props"
    and "map_of props g = Some opts"
    and "map_of sel g = Some i"
    and "ToInt32 i < 0 \<or> int (length opts) \<le> ToInt32 i"
  shows "selectedOption opts sel g = None
       \<and> calculateAdditionalCost props sel cur
           = calculateAdditionalCost (filter (\<lambda>(n, _). n \<noteq> g) props) sel cur"
proof -
  from assms(3,4) have none: "selectedOption opts sel g = None"
    by (intro selectedOption_out_of_range) (simp add: selectedIndex_def bitor0_def)
  with calculateAdditionalCost_split [OF assms(1,2), of sel cur]
  show ?thesis by simp
qed

theorem calculateAdditionalCost_out_of_range_witness:
  "wf_object purpleFirst_properties
   \<and> map_of purpleFirst_properties ''colour'' = Some [purple, Scalar (Str ''red'')]
   \<and> int (length [purple, Scalar (Str ''red'')]) \<le> ToInt32 2
   \<and> selectedOption [purple, Scalar (Str ''red'')] [(''colour'', 2)] ''colour'' = None
   \<and> calculateAdditionalCost purpleFirst_properties [(''colour'', 2)] ''USD''
       = calculateAdditionalCost [] [(''colour'', 2)] ''USD''"
proof -
  have w: "wf_object purpleFirst_properties"
    by (simp add: wf_object_def purpleFirst_properties_def)
  have m: "map_of purpleFirst_properties ''colour'' = Some [purple, Scalar (Str ''red'')]"
    by (simp add: purpleFirst_properties_def)
  have s: "map_of [(''colour'', 2::int)] ''colour'' = Some 2" by simp
  have r: "ToInt32 2 < 0 \<or> int (length [purple, Scalar (Str ''red'')]) \<le> ToInt32 2"
    by (simp add: ToInt32_def)
  have f: "filter (\<lambda>(n, _). n \<noteq> ''colour'') purpleFirst_properties = []"
    by (simp add: purpleFirst_properties_def)
  from calculateAdditionalCost_out_of_range [OF w m s r, of "''USD''"] w m f
  show ?thesis by (simp add: ToInt32_def)
qed

text \<open>
  C1, as stated, fails: an out-of-range index does not fall back to index 0. With one
  group whose option 0 costs 20, the index 2 gives 0 and the index 0 gives 20.
\<close>

theorem calculateAdditionalCost_fallback_counterexample:
  "calculateAdditionalCost purpleFirst_properties [(''colour'', 2)] ''USD'' = 0
   \<and> calculateAdditionalCost purpleFirst_properties [(''colour'', 0)] ''USD'' = 20"
  by (simp add: calculateAdditionalCost_def purpleFirst_properties_def selectedOption_def
        selectedIndex_def bitor0_def ToInt32_def element_at_def costOperand_def or_zero_def
        purple_def)

text \<open>
  C1, amended. With a selected index for a group that \<open>|0\<close> leaves outside the group's
  option list there is no fallback to index 0: the group adds 0 to the sum. So
  calculateAdditionalCost returns the same result as with that group's index set to 0
  whenever the group's option 0 adds nothing for the currency.
\<close>

theorem calculateAdditionalCost_out_of_range_adds_0:
  assumes "wf_object props"
    and "map_of props g = Some opts"
    and "map_of sel g = Some i"
    and "ToInt32 i < 0 \<or> int (length opts) \<le> ToInt32 i"
  shows "or_zero (costOperand (selectedOption opts sel g) cur) = 0
       \<and> (or_zero (costOperand (element_at opts 0) cur) = 0
          \<longrightarrow> calculateAdditionalCost props sel cur
                = calculateAdditionalCost props (assign g 0 sel) cur)"
proof -
  from assms(3,4) have none: "selectedOption opts sel g = None"
    by (intro selectedOption_out_of_range) (simp add: selectedIndex_def bitor0_def)
  have at0: "selectedOption opts (assign g 0 sel) g = element_at opts 0"
    by (simp add: selectedOption_def selectedIndex_def map_of_assign bitor0_def ToInt32_def)
  have same: "calculateAdditionalCost props sel cur
            = calculateAdditionalCost props (assign g 0 sel) cur"
    if zero: "or_zero (costOperand (element_at opts 0) cur) = 0"
    unfolding calculateAdditionalCost_fold
  proof (rule fold_plus_cong, rule ballI)
    fix e assume e: "e \<in> set props"
    obtain n os where nos: "e = (n, os)" by (cases e)
    show "(case e of (propertyName, propertyOptions) \<Rightarrow>
             or_zero (costOperand (selectedOption propertyOptions sel propertyName) cur))
        = (case e of (propertyName, propertyOptions) \<Rightarrow>
             or_zero (costOperand
               (selectedOption propertyOptions (assign g 0 sel) propertyName) cur))"
    proof (cases "n = g")
      case True
      from assms(1) e nos True have "map_of props g = Some os"
        by (simp add: wf_object_def)
      with assms(2) have "os = opts" by simp
      with True nos none at0 zero show ?thesis by simp
    next
      case False
      then have "selectedOption os (assign g 0 sel) n = selectedOption os sel n"
        by (simp add: selectedOption_def selectedIndex_def map_of_assign)
      with nos show ?thesis by simp
    qed
  qed
  from none same show ?thesis by simp
qed

theorem calculateAdditionalCost_out_of_range_adds_0_witness:
  "wf_object macbookCase_properties
   \<and> map_of macbookCase_properties ''colour''
       = Some [Scalar (Str ''red''), Scalar (Str ''green''), purple]
   \<and> int (length [Scalar (Str ''red''), Scalar (Str ''green''), purple]) \<le> ToInt32 7
   \<and> or_zero (costOperand
        (element_at [Scalar (Str ''red''), Scalar (Str ''green''), purple] 0) ''USD'') = 0
   \<and> or_zero (costOperand
        (selectedOption [Scalar (Str ''red''), Scalar (Str ''green''), purple]
           [(''colour'', 7), (''additionalColour'', 2)] ''colour'') ''USD'') = 0
   \<and> calculateAdditionalCost macbookCase_properties
        [(''colour'', 7), (''additionalColour'', 2)] ''USD''
       = calculateAdditionalCost macbookCase_properties
           [(''colour'', 0), (''additionalColour'', 2)] ''USD''"
proof -
  let ?opts = "[Scalar (Str ''red''), Scalar (Str ''green''), purple]"
  have w: "wf_object macbookCase_properties"
    by (simp add: wf_object_def macbookCase_properties_def)
  have m: "map_of macbookCase_properties ''colour'' = Some ?opts"
    by (simp add: macbookCase_properties_def)
  have s: "map_of [(''colour'', 7::int), (''additionalColour'', 2)] ''colour'' = Some 7"
    by simp
  have r: "ToInt32 7 < 0 \<or> int (length ?opts) \<le> ToInt32 7"
    by (simp add: ToInt32_def)
  have z: "or_zero (costOperand (element_at ?opts 0) ''USD'') = 0"
    by (simp add: element_at_def costOperand_def or_zero_def)
  from calculateAdditionalCost_out_of_range_adds_0 [OF w m s r, of "''USD''"] w m z
  show ?thesis by (simp add: ToInt32_def)
qed

section \<open>Properties of generateCartProduct and of the rendered price\<close>

lemma assign_fresh:
  "k \<notin> fst ` set obj \<Longrightarrow> assign k v obj = obj @ [(k, v)]"
  by (induction obj) auto

lemma fold_assign_map:
  assumes "distinct (map fst acc @ map fst xs)"
  shows "fold (\<lambda>(k, v) obj. assign k (f k v) obj) xs acc
       = acc @ map (\<lambda>(k, v). (k, f k v)) xs"
  using assms
proof (induction xs arbitrary: acc)
  case Nil
  then show ?case by simp
next
  case (Cons e xs)
  obtain k v where e: "e = (k, v)" by (cases e)
  from Cons.prems e have fresh: "k \<notin> fst ` set acc" by auto
  from Cons.prems e have "distinct (map fst (acc @ [(k, f k v)]) @ map fst xs)" by auto
  from Cons.IH [OF this] e fresh show ?case by (simp add: assign_fresh)
qed

lemma fold_assign_from_empty:
  assumes "wf_object xs"
  shows "fold (\<lambda>(k, v) obj. assign k (f k v) obj) xs [] = map (\<lambda>(k, v). (k, f k v)) xs"
  using fold_assign_map [of "[]" xs f] assms by (simp add: wf_object_def)

text \<open>
  C4, as stated, fails for the properties of the line item: in a group of \<open>2^31 + 1\<close>
  options the stored index \<open>2^31\<close> is in range and selects the last option, whose plain
  value is purple, but \<open>|0\<close> makes the index negative and the line item holds
  \<open>undefined\<close> for the groupName.
\<close>

theorem generateCartProduct_long_list_counterexample:
  "in_range (ProductProps.properties longCase) [(''colour'', 2147483648)]
   \<and> plainValue ((replicate 2147483648 (Scalar (Str ''red'')) @ [purple]) ! 2147483648)
       = Str ''purple''
   \<and> properties (generateCartProduct longCase 1 [(''colour'', 2147483648)])
       = [(''colour'', None)]"
proof -
  have "in_range (ProductProps.properties longCase) [(''colour'', 2147483648)]"
    by (simp add: longCase_def in_range_def longList_properties_def storedIndex_def)
  moreover
  have "plainValue ((replicate 2147483648 (Scalar (Str ''red'')) @ [purple]) ! 2147483648)
      = Str ''purple''"
    by (simp only: long_list_last) (simp add: plainValue_def purple_def)
  moreover
  have "properties (generateCartProduct longCase 1 [(''colour'', 2147483648)])
      = [(''colour'', None)]"
    by (simp add: generateCartProduct_def longCase_def longList_properties_def
          selectedIndex_def bitor0_def ToInt32_def element_at_def getOptionValue_def)
  ultimately show ?thesis by simp
qed

text \<open>
  C4, amended. For an in-range selected-index map whose indexes are below \<open>2^31\<close>, the
  line item that generateCartProduct returns has a properties field that maps each
  option-group name to the plain value of the selected variant, and a
  productInfo.prices that maps every currency of the base prices to the base price plus
  calculateAdditionalCost for that currency.
\<close>

theorem generateCartProduct_line_item:
  assumes "wf_object (ProductProps.properties p)"
    and "wf_object (prices p)"
    and "in_range (ProductProps.properties p) sel"
    and "indexes_below_2_31 sel"
  shows "properties (generateCartProduct p qty sel)
           = map (\<lambda>(groupName, variants).
                    (groupName, Some (plainValue (variants ! nat (storedIndex sel groupName)))))
               (ProductProps.properties p)
       \<and> prices (productInfo (generateCartProduct p qty sel))
           = map (\<lambda>(c, base).
                    (c, base + calculateAdditionalCost (ProductProps.properties p) sel c))
               (prices p)"
proof -
  have "properties (generateCartProduct p qty sel)
      = map (\<lambda>(groupName, variants).
               (groupName, getOptionValue (element_at variants (selectedIndex sel groupName))))
          (ProductProps.properties p)"
    using fold_assign_from_empty [OF assms(1),
        of "\<lambda>groupName variants. getOptionValue (element_at variants (selectedIndex sel groupName))"]
    by (simp add: generateCartProduct_def)
  also have "\<dots> = map (\<lambda>(groupName, variants).
                    (groupName, Some (plainValue (variants ! nat (storedIndex sel groupName)))))
               (ProductProps.properties p)"
  proof (rule map_cong [OF refl])
    fix e assume e: "e \<in> set (ProductProps.properties p)"
    obtain groupName variants where gv: "e = (groupName, variants)" by (cases e)
    with e assms(3) have stored: "0 \<le> storedIndex sel groupName"
      and less: "storedIndex sel groupName < int (length variants)"
      by (auto simp: in_range_def list_all_iff)
    from selectedIndex_stored [OF assms(4) stored]
    have idx: "selectedIndex sel groupName = storedIndex sel groupName" .
    from stored less have "getOptionValue (element_at variants (storedIndex sel groupName))
        = Some (plainValue (variants ! nat (storedIndex sel groupName)))"
      by (cases "variants ! nat (storedIndex sel groupName)")
         (simp_all add: getOptionValue_def element_at_def plainValue_def)
    with gv idx show "(case e of (groupName, variants) \<Rightarrow>
                     (groupName, getOptionValue (element_at variants (selectedIndex sel groupName))))
                = (case e of (groupName, variants) \<Rightarrow>
                     (groupName, Some (plainValue (variants ! nat (storedIndex sel groupName)))))"
      by simp
  qed
  finally have first: "properties (generateCartProduct p qty sel)
      = map (\<lambda>(groupName, variants).
               (groupName, Some (plainValue (variants ! nat (storedIndex sel groupName)))))
          (ProductProps.properties p)" .
  have second: "prices (productInfo (generateCartProduct p qty sel))
      = map (\<lambda>(c, base).
               (c, base + calculateAdditionalCost (ProductProps.properties p) sel c))
          (prices p)"
    using fold_assign_from_empty [OF assms(2),
        of "\<lambda>c base. base + calculateAdditionalCost (ProductProps.properties p) sel c"]
    by (simp add: generateCartProduct_def)
  from first second show ?thesis by simp
qed

lemma macbookCase_additionalCost:
  "calculateAdditionalCost macbookCase_properties [(''colour'', 2)] ''GBP'' = 10"
  "calculateAdditionalCost macbookCase_properties [(''colour'', 2)] ''EUR'' = 15"
  "calculateAdditionalCost macbookCase_properties [(''colour'', 2)] ''USD'' = 20"
  by (simp_all add: calculateAdditionalCost_def macbookCase_properties_def selectedOption_def
        selectedIndex_def bitor0_def ToInt32_def element_at_def costOperand_def or_zero_def
        purple_def)

theorem generateCartProduct_line_item_witness:
  "wf_object (ProductProps.properties macbookCase)
   \<and> wf_object (prices macbookCase)
   \<and> in_range (ProductProps.properties macbookCase) [(''colour'', 2)]
   \<and> indexes_below_2_31 [(''colour'', 2)]
   \<and> properties (generateCartProduct macbookCase 3 [(''colour'', 2)])
       = [(''colour'', Some (Str ''purple'')), (''additionalColour'', Some (Str ''red''))]
   \<and> prices (productInfo (generateCartProduct macbookCase 3 [(''colour'', 2)]))
       = [(''GBP'', 60), (''EUR'', 75), (''USD'', 90)]"
proof -
  have w1: "wf_object (ProductProps.properties macbookCase)"
    by (simp add: wf_object_def macbookCase_def macbookCase_properties_def)
  have w2: "wf_object (prices macbookCase)"
    by (simp add: wf_object_def macbookCase_def)
  have r: "in_range (ProductProps.properties macbookCase) [(''colour'', 2)]"
    by (simp add: in_range_def macbookCase_def macbookCase_properties_def storedIndex_def)
  have s: "indexes_below_2_31 [(''colour'', 2)]"
    by (simp add: indexes_below_2_31_def)
  have props: "ProductProps.properties macbookCase = macbookCase_properties"
    by (simp add: macbookCase_def)
  have a: "map (\<lambda>(groupName, variants).
                  (groupName, Some (plainValue (variants ! nat (storedIndex [(''colour'', 2)] groupName)))))
             macbookCase_properties
         = [(''colour'', Some (Str ''purple'')), (''additionalColour'', Some (Str ''red''))]"
    by (simp add: macbookCase_properties_def storedIndex_def plainValue_def purple_def)
  have b: "map (\<lambda>(c, base).
                  (c, base + calculateAdditionalCost macbookCase_properties [(''colour'', 2)] c))
             (prices macbookCase)
         = [(''GBP'', 60), (''EUR'', 75), (''USD'', 90)]"
    by (simp add: macbookCase_def macbookCase_additionalCost)
  from generateCartProduct_line_item [OF w1 w2 r s, of 3] w1 w2 r s a b
  show ?thesis by (simp add: props)
qed

text \<open>
  C7. The price that render displays is the base price for the currency plus the
  additional cost, with nothing else applied to it; for base prices \<open>{USD: 70}\<close>, the
  group colour with options \<open>["red", {value: "yellow", additionalCost: {USD: 3.5}}]\<close>,
  selected index 1 and currency USD it is 73.5.
\<close>

theorem render_price_base_plus_additionalCost:
  "(map_of (prices p) (currency p) = Some base
      \<longrightarrow> render_price p st
            = Some (base + calculateAdditionalCost (ProductProps.properties p)
                             (selectedPropertyIndexes st) (currency p)))
   \<and> (prices p = [(''USD'', 70)] \<and> currency p = ''USD''
      \<and> ProductProps.properties p
          = [(''colour'',
              [Scalar (Str ''red''),
               Shape \<lparr>additionalCost = Some [(''USD'', 3.5)], onSelect = f,
                      value' = Str ''yellow''\<rparr>])]
      \<and> selectedPropertyIndexes st = [(''colour'', 1)]
      \<longrightarrow> render_price p st = Some 73.5)"
  by (simp add: render_price_def calculateAdditionalCost_def selectedOption_def
        selectedIndex_def bitor0_def ToInt32_def element_at_def costOperand_def or_zero_def)

theorem render_price_base_plus_additionalCost_witness:
  "map_of (prices yellowCase) (currency yellowCase) = Some 70
   \<and> render_price yellowCase
        \<lparr>ProductState.quantity = Finite 1, selectedPropertyIndexes = [(''colour'', 1)]\<rparr>
       = Some 73.5"
proof -
  have "render_price yellowCase
          \<lparr>ProductState.quantity = Finite 1, selectedPropertyIndexes = [(''colour'', 1)]\<rparr>
      = Some 73.5"
    using render_price_base_plus_additionalCost
      [of yellowCase 70
          "\<lparr>ProductState.quantity = Finite 1, selectedPropertyIndexes = [(''colour'', 1)]\<rparr>" None,
       THEN conjunct2]
    by (simp add: yellowCase_def)
  then show ?thesis by (simp add: yellowCase_def)
qed

section \<open>Properties of generateProductKey\<close>

lemma selectedIndex_same_entries:
  assumes "wf_object sel" and "wf_object sel'" and "set sel = set sel'"
  shows "selectedIndex sel = selectedIndex sel'"
proof -
  from assms have "map_of sel = map_of sel'"
    by (simp add: wf_object_def map_of_inject_set)
  then show ?thesis by (simp add: selectedIndex_def fun_eq_iff)
qed

text \<open>
  C2, as stated, fails: the key lists the entries in the order the properties object
  enumerates them. For \<open>{a: 1, b: 2}\<close> and \<open>{b: 2, a: 1}\<close> the keys differ.
\<close>

theorem generateProductKey_order_counterexample:
  "generateProductKey decimalText ''m'' [(''a'', Some (Num 1)), (''b'', Some (Num 2))]
     = ''m/a,1_b,2''
   \<and> generateProductKey decimalText ''m'' [(''b'', Some (Num 2)), (''a'', Some (Num 1))]
     = ''m/b,2_a,1''
   \<and> generateProductKey decimalText ''m'' [(''a'', Some (Num 1)), (''b'', Some (Num 2))]
     \<noteq> generateProductKey decimalText ''m'' [(''b'', Some (Num 2)), (''a'', Some (Num 1))]"
  by (simp add: generateProductKey_def entryText_def elementText_def decimalText_def
        digits.simps digit_def)

text \<open>
  Two texts that agree up to and after a separator that neither holds before it.
\<close>

lemma append_sep_inject:
  assumes "c \<notin> set x" and "c \<notin> set x'" and "x @ c # r = x' @ c # r'"
  shows "x = x' \<and> r = r'"
  using assms
proof (induction x arbitrary: x')
  case Nil
  then show ?case by (cases x') auto
next
  case (Cons a x)
  then show ?case by (cases x') auto
qed

lemma js_join_Cons:
  "js_join [c] (x # xs) = x @ (if xs = [] then [] else c # js_join [c] xs)"
  by (cases xs) simp_all

text \<open>join is injective on texts that are not empty and do not hold the separator.\<close>

lemma js_join_inject:
  assumes "\<forall>x \<in> set xs. c \<notin> set x \<and> x \<noteq> []"
    and "\<forall>y \<in> set ys. c \<notin> set y \<and> y \<noteq> []"
    and "js_join [c] xs = js_join [c] ys"
  shows "xs = ys"
  using assms
proof (induction xs arbitrary: ys)
  case Nil
  then show ?case by (cases ys) (auto simp: js_join_Cons)
next
  case (Cons x xs)
  show ?case
  proof (cases ys)
    case Nil
    with Cons.prems show ?thesis by (auto simp: js_join_Cons)
  next
    case ys: (Cons y ys')
    from Cons.prems ys have x: "c \<notin> set x" and y: "c \<notin> set y" by auto
    from Cons.prems(3) ys
    have eq: "x @ (if xs = [] then [] else c # js_join [c] xs)
            = y @ (if ys' = [] then [] else c # js_join [c] ys')"
      by (simp only: js_join_Cons)
    show ?thesis
    proof (cases "xs = []")
      case True
      show ?thesis
      proof (cases "ys' = []")
        case True
        with \<open>xs = []\<close> eq ys show ?thesis by simp
      next
        case False
        with \<open>xs = []\<close> eq have "x = y @ c # js_join [c] ys'" by simp
        then have "c \<in> set x" by simp
        with x show ?thesis by simp
      qed
    next
      case False
      show ?thesis
      proof (cases "ys' = []")
        case True
        with False eq have "y = x @ c # js_join [c] xs" by simp
        then have "c \<in> set y" by simp
        with y show ?thesis by simp
      next
        case ys'_ne: False
        with False eq have "x @ c # js_join [c] xs = y @ c # js_join [c] ys'" by simp
        from append_sep_inject [OF x y this]
        have "x = y" and rest: "js_join [c] xs = js_join [c] ys'" by simp_all
        from Cons.prems ys have "\<forall>x \<in> set xs. c \<notin> set x \<and> x \<noteq> []"
          and "\<forall>y \<in> set ys'. c \<notin> set y \<and> y \<noteq> []" by auto
        from Cons.IH [OF this rest] \<open>x = y\<close> ys show ?thesis by simp
      qed
    qed
  qed
qed

lemma entryText_comma:
  "entryText numberToString e = fst e @ CHR '','' # elementText numberToString (snd e)"
  by (simp add: entryText_def)

text \<open>
  C2, amended. For two properties maps with the same name-value pairs (each name once,
  no separator character in the names or in the texts of the values), the default
  generateProductKey returns the same string if and only if the two maps enumerate
  their entries in the same order: no permutation that changes the order keeps the key.
\<close>

theorem generateProductKey_same_key_iff_same_order:
  assumes "wf_object props"
    and "set props' = set props"
    and "key_safe numberToString props"
  shows "generateProductKey numberToString ident props
           = generateProductKey numberToString ident props'
         \<longleftrightarrow> props = props'"
proof
  assume "generateProductKey numberToString ident props
        = generateProductKey numberToString ident props'"
  then have joined: "js_join [CHR ''_''] (map (entryText numberToString) props)
                   = js_join [CHR ''_''] (map (entryText numberToString) props')"
    by (simp add: generateProductKey_def)
  have safe: "CHR '','' \<notin> set (fst e) \<and> CHR ''_'' \<notin> set (fst e)
            \<and> CHR ''_'' \<notin> set (elementText numberToString (snd e))"
    if "e \<in> set props" for e
    using assms(3) that by (auto simp: key_safe_def list_all_iff)
  have entry_ok: "CHR ''_'' \<notin> set (entryText numberToString e) \<and> entryText numberToString e \<noteq> []"
    if "e \<in> set props" for e
    using safe [OF that] by (simp add: entryText_comma)
  have texts: "\<forall>t \<in> set (map (entryText numberToString) props). CHR ''_'' \<notin> set t \<and> t \<noteq> []"
  proof
    fix t assume "t \<in> set (map (entryText numberToString) props)"
    then obtain e where "e \<in> set props" and "t = entryText numberToString e" by auto
    with entry_ok show "CHR ''_'' \<notin> set t \<and> t \<noteq> []" by simp
  qed
  have texts': "\<forall>t \<in> set (map (entryText numberToString) props'). CHR ''_'' \<notin> set t \<and> t \<noteq> []"
  proof
    fix t assume "t \<in> set (map (entryText numberToString) props')"
    then obtain e where "e \<in> set props'" and "t = entryText numberToString e" by auto
    with entry_ok assms(2) show "CHR ''_'' \<notin> set t \<and> t \<noteq> []" by simp
  qed
  from js_join_inject [OF texts texts' joined]
  have entries: "map (entryText numberToString) props = map (entryText numberToString) props'" .
  then have len: "length props = length props'"
    by (rule map_eq_imp_length_eq)
  from assms(1) have inj: "inj_on fst (set props)"
    by (simp add: wf_object_def distinct_map)
  show "props = props'"
  proof (rule nth_equalityI [OF len])
    fix i assume i: "i < length props"
    from i have i': "i < length props'" unfolding len .
    from i have mem: "props ! i \<in> set props" by (rule nth_mem)
    from i' have "props' ! i \<in> set props'" by (rule nth_mem)
    then have mem': "props' ! i \<in> set props" unfolding assms(2) .
    from entries have "map (entryText numberToString) props ! i
        = map (entryText numberToString) props' ! i"
      by (rule arg_cong)
    with i i' have "entryText numberToString (props ! i)
        = entryText numberToString (props' ! i)"
      by (simp only: nth_map)
    then have eq: "fst (props ! i) @ CHR '','' # elementText numberToString (snd (props ! i))
        = fst (props' ! i) @ CHR '','' # elementText numberToString (snd (props' ! i))"
      by (simp only: entryText_comma)
    from safe [OF mem] have c: "CHR '','' \<notin> set (fst (props ! i))" by (rule conjunct1)
    from safe [OF mem'] have c': "CHR '','' \<notin> set (fst (props' ! i))" by (rule conjunct1)
    from append_sep_inject [OF c c' eq]
    have "fst (props ! i) = fst (props' ! i)" by (rule conjunct1)
    with inj_onD [OF inj _ mem mem'] show "props ! i = props' ! i" by blast
  qed
next
  assume "props = props'"
  then show "generateProductKey numberToString ident props
           = generateProductKey numberToString ident props'" by simp
qed

theorem generateProductKey_same_key_iff_same_order_witness:
  "wf_object [(''a'', Some (Num 1)), (''b'', Some (Num 2))]
   \<and> set [(''b'', Some (Num 2)), (''a'', Some (Num 1))]
       = set [(''a'', Some (Num 1)), (''b'', Some (Num 2))]
   \<and> key_safe decimalText [(''a'', Some (Num 1)), (''b'', Some (Num 2))]
   \<and> generateProductKey decimalText ''m'' [(''a'', Some (Num 1)), (''b'', Some (Num 2))]
       \<noteq> generateProductKey decimalText ''m'' [(''b'', Some (Num 2)), (''a'', Some (Num 1))]"
proof -
  have w: "wf_object [(''a'', Some (Num 1)), (''b'', Some (Num 2))]"
    by (simp add: wf_object_def)
  have e: "set [(''b'', Some (Num 2)), (''a'', Some (Num 1))]
         = set [(''a'', Some (Num 1)), (''b'', Some (Num 2))]"
    by auto
  have k: "key_safe decimalText [(''a'', Some (Num 1)), (''b'', Some (Num 2))]"
    by (simp add: key_safe_def elementText_def decimalText_def digits.simps digit_def)
  from generateProductKey_same_key_iff_same_order [OF w e k, of "''m''"] w e k
  show ?thesis by simp
qed

text \<open>
  The key of a line item does not depend on the insertion order of the selected-index
  map: the properties that generateCartProduct resolves always enumerate in the order of
  the product's option groups.
\<close>

lemma generateProductKey_selection_order:
  assumes "wf_object sel" and "wf_object sel'" and "set sel = set sel'"
  shows "generateProductKey numberToString ident (properties (generateCartProduct p qty sel))
       = generateProductKey numberToString ident (properties (generateCartProduct p qty sel'))"
proof -
  from assms have "selectedIndex sel = selectedIndex sel'"
    by (rule selectedIndex_same_entries)
  then have "properties (generateCartProduct p qty sel)
           = properties (generateCartProduct p qty sel')"
    by (simp add: generateCartProduct_def)
  then show ?thesis by simp
qed

section \<open>Properties of addProduct\<close>

text \<open>
  C5. addProduct yields, at a key that exists, an entry with the quantity of the
  existing entry plus the incoming quantity and every other field of the incoming item;
  at an absent key, the incoming item itself. Adding quantity 2 and then quantity 3 at
  the same key gives quantity 5.
\<close>

theorem addProduct_add_or_merge:
  "(map_of (products st) key = Some existing
      \<longrightarrow> map_of (products (addProduct key item cur st)) key
            = Some (item\<lparr>quantity := quantity existing + quantity item\<rparr>))
   \<and> (map_of (products st) key = None
      \<longrightarrow> map_of (products (addProduct key item cur st)) key = Some item)
   \<and> (map_of (products st) key = None \<and> quantity item = 2 \<and> quantity item' = 3
      \<longrightarrow> map_of (products (addProduct key item' cur (addProduct key item cur st))) key
            = Some (item'\<lparr>quantity := 5\<rparr>))"
  by (simp add: addProduct_def map_of_assign Let_def)

theorem addProduct_add_or_merge_witness:
  "map_of (products \<lparr>products = []\<rparr>) ''m/colour,red'' = None
   \<and> quantity (redCase 2) = 2 \<and> quantity (redCase 3) = 3
   \<and> map_of (products (addProduct ''m/colour,red'' (redCase 3) ''USD''
                (addProduct ''m/colour,red'' (redCase 2) ''USD'' \<lparr>products = []\<rparr>)))
        ''m/colour,red''
       = Some (redCase 5)
   \<and> map_of (products \<lparr>products = [(''m/colour,red'', redCase 1)]\<rparr>) ''m/colour,red''
       = Some (redCase 1)
   \<and> map_of (products (addProduct ''m/colour,red'' (redCase 2) ''USD''
                \<lparr>products = [(''m/colour,red'', redCase 1)]\<rparr>))
        ''m/colour,red''
       = Some (redCase 3)"
proof -
  have "map_of (products (addProduct ''m/colour,red'' (redCase 3) ''USD''
                  (addProduct ''m/colour,red'' (redCase 2) ''USD'' \<lparr>products = []\<rparr>)))
          ''m/colour,red''
      = Some (redCase 5)"
    using addProduct_add_or_merge
      [of "\<lparr>products = []\<rparr>" "''m/colour,red''" _ "redCase 2" "''USD''" "redCase 3",
       THEN conjunct2, THEN conjunct2]
    by (simp add: redCase_def)
  moreover
  have "map_of (products (addProduct ''m/colour,red'' (redCase 2) ''USD''
                  \<lparr>products = [(''m/colour,red'', redCase 1)]\<rparr>))
          ''m/colour,red''
      = Some (redCase 3)"
    using addProduct_add_or_merge
      [of "\<lparr>products = [(''m/colour,red'', redCase 1)]\<rparr>" "''m/colour,red''" "redCase 1"
          "redCase 2" "''USD''", THEN conjunct1]
    by (simp add: redCase_def)
  ultimately show ?thesis by (simp add: redCase_def)
qed

section \<open>Properties of handleQuantityValueChange\<close>

text \<open>
  C6. The quantity change handler stores the quantity only when the input coerces to a
  positive integer; for every other input (a fraction, zero, a negative number, NaN or
  an infinity) it returns the state as it was. It is a total function of the input:
  no input makes it fail.
\<close>

theorem handleQuantityValueChange_positive_integer_only:
  "(toNumber v = Finite x \<and> 0 < x \<and> x \<in> \<int>
      \<longrightarrow> handleQuantityValueChange toNumber v st = st\<lparr>ProductState.quantity := Finite x\<rparr>)
   \<and> (\<not> (\<exists>x. toNumber v = Finite x \<and> 0 < x \<and> x \<in> \<int>)
      \<longrightarrow> handleQuantityValueChange toNumber v st = st)"
  by (cases "toNumber v") (auto simp: handleQuantityValueChange_def isNaturalNumber_def)

theorem handleQuantityValueChange_positive_integer_only_witness:
  "handleQuantityValueChange inputNumber ''3'' initialState
     = \<lparr>ProductState.quantity = Finite 3, selectedPropertyIndexes = []\<rparr>
   \<and> handleQuantityValueChange inputNumber ''2.5'' initialState = initialState
   \<and> handleQuantityValueChange inputNumber ''0'' initialState = initialState
   \<and> handleQuantityValueChange inputNumber ''-4'' initialState = initialState
   \<and> handleQuantityValueChange inputNumber ''abc'' initialState = initialState"
proof -
  have frac: "(2.5::real) \<notin> \<int>"
    by (simp flip: of_int_floor_cancel)
  have "handleQuantityValueChange inputNumber ''3'' initialState
      = \<lparr>ProductState.quantity = Finite 3, selectedPropertyIndexes = []\<rparr>"
    using handleQuantityValueChange_positive_integer_only
      [of inputNumber "''3''" 3 initialState, THEN conjunct1]
    by (simp add: inputNumber_def initialState_def)
  moreover
  have "handleQuantityValueChange inputNumber ''2.5'' initialState = initialState"
  proof (rule handleQuantityValueChange_positive_integer_only [THEN conjunct2, THEN mp])
    show "\<not> (\<exists>x. inputNumber ''2.5'' = Finite x \<and> 0 < x \<and> x \<in> \<int>)"
    proof
      assume "\<exists>x. inputNumber ''2.5'' = Finite x \<and> 0 < x \<and> x \<in> \<int>"
      then obtain x where x: "inputNumber ''2.5'' = Finite x" and int: "x \<in> \<int>"
        by blast
      have "inputNumber ''2.5'' = Finite 2.5"
        by (simp add: inputNumber_def)
      with x have "x = 2.5" by (simp only: jsnumber.inject)
      with int frac show False by blast
    qed
  qed
  moreover
  have "handleQuantityValueChange inputNumber ''0'' initialState = initialState"
    using handleQuantityValueChange_positive_integer_only
      [of inputNumber "''0''" _ initialState, THEN conjunct2]
    by (simp add: inputNumber_def)
  moreover
  have "handleQuantityValueChange inputNumber ''-4'' initialState = initialState"
    using handleQuantityValueChange_positive_integer_only
      [of inputNumber "''-4''" _ initialState, THEN conjunct2]
    by (simp add: inputNumber_def)
  moreover
  have "handleQuantityValueChange inputNumber ''abc'' initialState = initialState"
    using handleQuantityValueChange_positive_integer_only
      [of inputNumber "''abc''" _ initialState, THEN conjunct2]
    by (simp add: inputNumber_def)
  ultimately show ?thesis by simp
qed

section \<open>addProduct leaves the objects of its caller as they were\<close>

lemma deref_append:
  "a < length h \<Longrightarrow> deref (h @ new) a = deref h a"
  by (simp add: deref_def nth_append)

lemma cartProductQuantity_extends:
  assumes "cartProductQuantity key entries h = Some (q, h1)"
  shows "\<exists>new. h1 = h @ new"
  using assms
  by (auto simp: cartProductQuantity_def alloc_def
           split: option.splits heapObject.splits)

lemma cartProductQuantity_defined:
  assumes "list_all (\<lambda>(k, r). is_item h r) entries"
  shows "\<exists>q h1. cartProductQuantity key entries h = Some (q, h1)"
proof (cases "map_of entries key")
  case None
  then show ?thesis by (simp add: cartProductQuantity_def)
next
  case (Some r)
  then have "(key, r) \<in> set entries" by (rule map_of_SomeD)
  with assms have "is_item h r" by (auto simp: list_all_iff)
  with Some show ?thesis
    by (auto simp: cartProductQuantity_def is_item_def split: option.splits heapObject.splits)
qed

lemma cartProductQuantity_value:
  assumes "list_all (\<lambda>(k, r). is_item h r) entries"
    and "cartProductQuantity key entries h = Some (q, h1)"
  shows "q = (case map_of entries key of None \<Rightarrow> 0 | Some r \<Rightarrow> quantity (the (item_at h r)))"
proof (cases "map_of entries key")
  case None
  with assms(2) show ?thesis by (simp add: cartProductQuantity_def)
next
  case (Some r)
  then have "(key, r) \<in> set entries" by (rule map_of_SomeD)
  with assms(1) have "is_item h r" by (auto simp: list_all_iff)
  with Some assms(2) show ?thesis
    by (auto simp: cartProductQuantity_def is_item_def item_at_def
             split: option.splits heapObject.splits)
qed

text \<open>What a call of addProduct on a well-formed cart creates and returns.\<close>

lemma addProduct_store_run:
  assumes "deref h productsRef = Some (ProductsObject entries)"
    and "list_all (\<lambda>(k, r). is_item h r) entries"
    and "deref h productRef = Some (ProductObject newProduct)"
  shows "\<exists>new.
           addProduct_store key productRef cur (productsRef, h)
           = Some (Suc (Suc (length h + length new)),
                   h @ new @
                   [ProductsObject (filter (\<lambda>(k, _). k \<noteq> key) entries),
                    ProductObject
                      (newProduct\<lparr>quantity := quantity newProduct
                         + (case map_of entries key of
                              None \<Rightarrow> 0
                            | Some r \<Rightarrow> quantity (the (item_at h r)))\<rparr>),
                    ProductsObject
                      (assign key (Suc (length h + length new))
                         (filter (\<lambda>(k, _). k \<noteq> key) entries))])"
proof -
  from cartProductQuantity_defined [OF assms(2)] obtain q h1 where
    q: "cartProductQuantity key entries h = Some (q, h1)" by blast
  from cartProductQuantity_extends [OF q] obtain new where h1: "h1 = h @ new" by blast
  from cartProductQuantity_value [OF assms(2) q]
  have v: "q = (case map_of entries key of None \<Rightarrow> 0 | Some r \<Rightarrow> quantity (the (item_at h r)))" .
  have "addProduct_store key productRef cur (productsRef, h)
      = Some (Suc (Suc (length h + length new)),
              h @ new @
              [ProductsObject (filter (\<lambda>(k, _). k \<noteq> key) entries),
               ProductObject (newProduct\<lparr>quantity := quantity newProduct + q\<rparr>),
               ProductsObject
                 (assign key (Suc (length h + length new))
                    (filter (\<lambda>(k, _). k \<noteq> key) entries))])"
    using assms(1,3) q h1 by (simp add: addProduct_store_def alloc_def Let_def)
  with v show ?thesis by blast
qed

lemma wf_cart_entries:
  assumes "wf_cart h productsRef"
  obtains entries where "deref h productsRef = Some (ProductsObject entries)"
    and "list_all (\<lambda>(k, r). is_item h r) entries"
    and "productsRef < length h"
    and "\<forall>(k, r) \<in> set entries. r < length h"
proof -
  from assms obtain entries where
    coll: "deref h productsRef = Some (ProductsObject entries)"
    and items: "list_all (\<lambda>(k, r). is_item h r) entries"
    by (auto simp: wf_cart_def split: option.splits heapObject.splits)
  from coll have "productsRef < length h"
    by (simp add: deref_def split: if_splits)
  moreover have "\<forall>(k, r) \<in> set entries. r < length h"
    using items by (auto simp: list_all_iff is_item_def deref_def split: if_splits)
  ultimately show ?thesis using coll items that by blast
qed

lemma collection_at_map:
  assumes "deref h ref = Some (ProductsObject entries)"
    and "list_all (\<lambda>(k, r). is_item h r) entries"
  shows "collection_at h ref = map (\<lambda>(k, r). (k, the (item_at h r))) entries"
proof -
  have "List.map_filter (\<lambda>(k, r). map_option (Pair k) (item_at h r)) xs
      = map (\<lambda>(k, r). (k, the (item_at h r))) xs"
    if "list_all (\<lambda>(k, r). is_item h r) xs" for xs
    using that
    by (induction xs)
       (auto simp: List.map_filter_simps is_item_def item_at_def
             split: option.splits heapObject.splits)
  with assms show ?thesis by (simp add: collection_at_def)
qed

lemma is_item_append:
  "is_item h r \<Longrightarrow> is_item (h @ new) r"
  by (auto simp: is_item_def deref_def nth_append split: if_splits option.splits)

lemma list_all_assign:
  "P (k, v) \<Longrightarrow> list_all P obj \<Longrightarrow> list_all P (assign k v obj)"
  by (induction obj) auto

lemma map_assign:
  "map (\<lambda>(k, r). (k, f r)) (assign key r' obj) = assign key (f r') (map (\<lambda>(k, r). (k, f r)) obj)"
  by (induction obj) auto

lemma map_filter_key:
  "map (\<lambda>(k, r). (k, f r)) (filter (\<lambda>(k, _). k \<noteq> key) obj)
   = filter (\<lambda>(k, _). k \<noteq> key) (map (\<lambda>(k, r). (k, f r)) obj)"
  by (induction obj) auto

lemma map_of_map_value:
  "map_of (map (\<lambda>(k, r). (k, f r)) obj) key = map_option f (map_of obj key)"
  by (induction obj) auto

lemma assign_cong_values:
  assumes "\<forall>(k, r) \<in> set obj. f r = g r"
  shows "assign key v (map (\<lambda>(k, r). (k, f r)) obj) = assign key v (map (\<lambda>(k, r). (k, g r)) obj)"
proof -
  from assms have "map (\<lambda>(k, r). (k, f r)) obj = map (\<lambda>(k, r). (k, g r)) obj" by auto
  then show ?thesis by (rule arg_cong)
qed

text \<open>
  The store model refines the model on values: the collection behind the returned
  reference is what addProduct makes of the collection behind the old one.
\<close>

lemma addProduct_store_refines:
  assumes "wf_cart h productsRef"
    and "deref h productRef = Some (ProductObject newProduct)"
    and "addProduct_store key productRef cur (productsRef, h) = Some (productsRef', h')"
  shows "collection_at h' productsRef'
       = products (addProduct key newProduct cur \<lparr>products = collection_at h productsRef\<rparr>)"
proof -
  from assms(1) obtain entries where
    coll: "deref h productsRef = Some (ProductsObject entries)"
    and items: "list_all (\<lambda>(k, r). is_item h r) entries"
    and refs: "\<forall>(k, r) \<in> set entries. r < length h"
    by (rule wf_cart_entries)
  let ?rest = "filter (\<lambda>(k, _). k \<noteq> key) entries"
  let ?q = "case map_of entries key of None \<Rightarrow> 0 | Some r \<Rightarrow> quantity (the (item_at h r))"
  let ?new = "newProduct\<lparr>quantity := quantity newProduct + ?q\<rparr>"
  from addProduct_store_run [OF coll items assms(2), of key cur] assms(3)
  obtain new where ref': "productsRef' = Suc (Suc (length h + length new))"
    and h': "h' = h @ new @ [ProductsObject ?rest, ProductObject ?new,
                            ProductsObject (assign key (Suc (length h + length new)) ?rest)]"
    by auto
  have at_ref: "deref h' productsRef'
      = Some (ProductsObject (assign key (Suc (length h + length new)) ?rest))"
    by (simp add: ref' h' deref_def nth_append)
  have new_item: "the (item_at h' (Suc (length h + length new))) = ?new"
    by (simp add: h' item_at_def deref_def nth_append)
  have old_items: "\<forall>(k, r) \<in> set ?rest. the (item_at h' r) = the (item_at h r)"
    using refs by (auto simp: h' item_at_def deref_append)
  have "list_all (\<lambda>(k, r). is_item h' r) ?rest"
    using items by (auto simp: list_all_iff h' intro: is_item_append)
  moreover have "is_item h' (Suc (length h + length new))"
    by (simp add: h' is_item_def deref_def nth_append)
  ultimately have "list_all (\<lambda>(k, r). is_item h' r)
                     (assign key (Suc (length h + length new)) ?rest)"
    by (simp add: list_all_assign)
  from collection_at_map [OF at_ref this]
  have "collection_at h' productsRef'
      = map (\<lambda>(k, r). (k, the (item_at h' r))) (assign key (Suc (length h + length new)) ?rest)" .
  also have "\<dots> = assign key ?new (map (\<lambda>(k, r). (k, the (item_at h' r))) ?rest)"
    by (simp add: map_assign new_item)
  also have "\<dots> = assign key ?new (map (\<lambda>(k, r). (k, the (item_at h r))) ?rest)"
    by (rule assign_cong_values [OF old_items])
  also have "\<dots> = assign key ?new
                     (filter (\<lambda>(k, _). k \<noteq> key) (map (\<lambda>(k, r). (k, the (item_at h r))) entries))"
    by (simp add: map_filter_key)
  also have "\<dots> = products (addProduct key newProduct cur
                               \<lparr>products = collection_at h productsRef\<rparr>)"
    by (simp add: addProduct_def collection_at_map [OF coll items] map_of_map_value Let_def
             split: option.splits)
  finally show ?thesis .
qed

text \<open>
  C8. addProduct is a pure transformation of the collection: it returns a reference to
  a newly created collection object, and every object that existed before the call (the
  caller's collection and each of its line items among them) is the same after it.
\<close>

theorem addProduct_store_frame:
  assumes "wf_cart h productsRef"
    and "deref h productRef = Some (ProductObject newProduct)"
  shows "\<exists>productsRef' h'.
           addProduct_store key productRef cur (productsRef, h) = Some (productsRef', h')
         \<and> (\<forall>a. a < length h \<longrightarrow> deref h' a = deref h a)
         \<and> length h \<le> productsRef'
         \<and> productsRef' \<noteq> productsRef
         \<and> collection_at h' productsRef = collection_at h productsRef"
proof -
  from assms(1) obtain entries where
    coll: "deref h productsRef = Some (ProductsObject entries)"
    and items: "list_all (\<lambda>(k, r). is_item h r) entries"
    and inside: "productsRef < length h"
    and refs: "\<forall>(k, r) \<in> set entries. r < length h"
    by (rule wf_cart_entries)
  from addProduct_store_run [OF coll items assms(2), of key cur]
  obtain productsRef' new last where
    run: "addProduct_store key productRef cur (productsRef, h)
            = Some (productsRef', h @ new @ last)"
    and ref': "productsRef' = Suc (Suc (length h + length new))"
    by blast
  have frame: "\<forall>a. a < length h \<longrightarrow> deref (h @ new @ last) a = deref h a"
    by (simp add: deref_append)
  have coll': "deref (h @ new @ last) productsRef = Some (ProductsObject entries)"
    using coll inside by (simp add: deref_append)
  have items': "list_all (\<lambda>(k, r). is_item (h @ new @ last) r) entries"
    using items by (auto simp: list_all_iff intro: is_item_append)
  have "map (\<lambda>(k, r). (k, the (item_at (h @ new @ last) r))) entries
      = map (\<lambda>(k, r). (k, the (item_at h r))) entries"
    using refs by (auto simp: item_at_def deref_append)
  then have same: "collection_at (h @ new @ last) productsRef = collection_at h productsRef"
    by (simp only: collection_at_map [OF coll' items'] collection_at_map [OF coll items])
  from run frame inside same ref' show ?thesis by simp
qed

theorem addProduct_store_frame_witness:
  "wf_cart cartStore 1
   \<and> deref cartStore 2 = Some (ProductObject (redCase 2))
   \<and> addProduct_store ''m/colour,red'' 2 ''USD'' (1, cartStore)
       = Some (5, cartStore @
                  [ProductsObject [], ProductObject (redCase 3),
                   ProductsObject [(''m/colour,red'', 4)]])
   \<and> deref (cartStore @
              [ProductsObject [], ProductObject (redCase 3),
               ProductsObject [(''m/colour,red'', 4)]]) 1
       = Some (ProductsObject [(''m/colour,red'', 0)])
   \<and> deref (cartStore @
              [ProductsObject [], ProductObject (redCase 3),
               ProductsObject [(''m/colour,red'', 4)]]) 0
       = Some (ProductObject (redCase 1))"
proof -
  let ?h' = "cartStore @ [ProductsObject [], ProductObject (redCase 3),
                          ProductsObject [(''m/colour,red'', 4)]]"
  have w: "wf_cart cartStore 1"
    by (simp add: wf_cart_def cartStore_def deref_def is_item_def)
  have i: "deref cartStore 2 = Some (ProductObject (redCase 2))"
    by (simp add: cartStore_def deref_def)
  have run: "addProduct_store ''m/colour,red'' 2 ''USD'' (1, cartStore) = Some (5, ?h')"
    by (simp add: addProduct_store_def cartProductQuantity_def cartStore_def deref_def
          alloc_def redCase_def Let_def)
  from addProduct_store_frame [OF w i, of "''m/colour,red''" "''USD''"] run
  have frame: "\<forall>a. a < length cartStore \<longrightarrow> deref ?h' a = deref cartStore a"
    by simp
  have len: "length cartStore = 3" by (simp add: cartStore_def)
  from frame len have "deref ?h' 1 = deref cartStore 1" and "deref ?h' 0 = deref cartStore 0"
    by simp_all
  then have "deref ?h' 1 = Some (ProductsObject [(''m/colour,red'', 0)])"
    and "deref ?h' 0 = Some (ProductObject (redCase 1))"
    by (simp_all add: cartStore_def deref_def)
  with w i run show ?thesis by simp
qed

section \<open>The lazily computed parameters of the localization scope\<close>

lemma calls_of_append:
  "calls_of (xs @ ys) = calls_of xs @ calls_of ys"
  by (induction xs rule: calls_of.induct) simp_all

lemma getters_read_append:
  "getters_read scope (xs @ ys) = getters_read scope xs @ getters_read scope ys"
  by (induction scope xs rule: getters_read.induct) (simp_all split: option.splits property.splits)

text \<open>
  Every recursive call of a run answers the read of an accessor property, and every
  such read makes its call: the calls in the log are the getters read, in order.
\<close>

lemma run_calls_are_getters_read:
  assumes "calls_of evs = getters_read scope evs"
  shows "calls_of (snd (run n g scope prog evs)) = getters_read scope (snd (run n g scope prog evs))"
  using assms
proof (induction n g scope prog evs rule: run.induct)
  case (1 g scope prog evs)
  then show ?case by simp
next
  case (2 n g scope r evs)
  then show ?case by simp
next
  case (3 n g scope p k evs)
  show ?case
  proof (cases "map_of scope p")
    case None
    with 3 show ?thesis by (simp add: calls_of_append getters_read_append)
  next
    case (Some entry)
    show ?thesis
    proof (cases entry)
      case (Data d)
      with Some 3 show ?thesis by (simp add: calls_of_append getters_read_append)
    next
      case (GetLocalization ident)
      let ?inner = "run n g scope (g ident) (evs @ [Accessed p, Called ident])"
      have start: "calls_of (evs @ [Accessed p, Called ident])
                 = getters_read scope (evs @ [Accessed p, Called ident])"
        using "3.prems" Some GetLocalization
        by (simp add: calls_of_append getters_read_append)
      from "3.IH"(3) [OF Some GetLocalization start]
      have inner: "calls_of (snd ?inner) = getters_read scope (snd ?inner)" .
      show ?thesis
      proof (cases "fst ?inner")
        case None
        with Some GetLocalization inner show ?thesis
          by (simp add: case_prod_beta split: option.splits)
      next
        case (Some r)
        then have eq: "?inner = (Some r, snd ?inner)" by (simp add: prod_eq_iff)
        from "3.IH"(4) [OF \<open>map_of scope p = Some entry\<close> GetLocalization eq [symmetric] refl inner]
        have "calls_of (snd (run n g scope (k (PLocalized r)) (snd ?inner)))
            = getters_read scope (snd (run n g scope (k (PLocalized r)) (snd ?inner)))" .
        with \<open>map_of scope p = Some entry\<close> GetLocalization Some show ?thesis
          by (simp add: case_prod_beta)
      qed
    qed
  qed
qed

lemma localizationScope_getters:
  assumes "map_of (localizationScope nm qty price c) p = Some (GetLocalization ident)"
  shows "p = ''localizedCurrency'' \<or> p = ''localizedName''"
  using assms by (simp add: localizationScope_def split: if_splits)

lemma getters_read_none:
  assumes "Accessed ''localizedName'' \<notin> set evs"
    and "Accessed ''localizedCurrency'' \<notin> set evs"
  shows "getters_read (localizationScope nm qty price c) evs = []"
  using assms
proof (induction evs)
  case Nil
  then show ?case by simp
next
  case (Cons e evs)
  then have rest: "getters_read (localizationScope nm qty price c) evs = []" by simp
  show ?case
  proof (cases e)
    case (Called ident)
    with rest show ?thesis by simp
  next
    case (Accessed p)
    with Cons.prems have "p \<noteq> ''localizedName''" and "p \<noteq> ''localizedCurrency''" by auto
    with localizationScope_getters [of nm qty price c p]
    have "\<forall>ident. map_of (localizationScope nm qty price c) p \<noteq> Some (GetLocalization ident)"
      by blast
    with Accessed rest show ?thesis
      by (simp split: option.splits property.splits)
  qed
qed

text \<open>
  C9. In every render, the parameter object passed to getLocalization holds
  localizedName and localizedCurrency as accessor properties. Reading one of them calls
  the same getLocalization with the product's name (or currency) and the same scope, and
  yields what that call returns; the recursive calls of a run are exactly the getters
  read, in order, so none is made in a run that reads neither parameter.
\<close>

theorem render_scope_lazy_parameters:
  "map_of (render_scope p st) ''localizedName'' = Some (GetLocalization (name p))
   \<and> map_of (render_scope p st) ''localizedCurrency'' = Some (GetLocalization (currency p))
   \<and> run (Suc n) g (render_scope p st) (Read ''localizedName'' k) evs
       = (case run n g (render_scope p st) (g (name p))
                 (evs @ [Accessed ''localizedName'', Called (name p)]) of
            (None, evs') \<Rightarrow> (None, evs')
          | (Some r, evs') \<Rightarrow> run n g (render_scope p st) (k (PLocalized r)) evs')
   \<and> run (Suc n) g (render_scope p st) (Read ''localizedCurrency'' k) evs
       = (case run n g (render_scope p st) (g (currency p))
                 (evs @ [Accessed ''localizedCurrency'', Called (currency p)]) of
            (None, evs') \<Rightarrow> (None, evs')
          | (Some r, evs') \<Rightarrow> run n g (render_scope p st) (k (PLocalized r)) evs')
   \<and> calls_of (snd (run n g (render_scope p st) prog []))
       = getters_read (render_scope p st) (snd (run n g (render_scope p st) prog []))
   \<and> (Accessed ''localizedName'' \<notin> set (snd (run n g (render_scope p st) prog []))
      \<and> Accessed ''localizedCurrency'' \<notin> set (snd (run n g (render_scope p st) prog []))
      \<longrightarrow> calls_of (snd (run n g (render_scope p st) prog [])) = [])"
proof -
  have name: "map_of (render_scope p st) ''localizedName'' = Some (GetLocalization (name p))"
    and cur: "map_of (render_scope p st) ''localizedCurrency''
                = Some (GetLocalization (currency p))"
    by (simp_all add: render_scope_def localizationScope_def)
  have calls: "calls_of (snd (run n g (render_scope p st) prog []))
             = getters_read (render_scope p st) (snd (run n g (render_scope p st) prog []))"
    by (rule run_calls_are_getters_read) simp
  have none: "calls_of (snd (run n g (render_scope p st) prog [])) = []"
    if "Accessed ''localizedName'' \<notin> set (snd (run n g (render_scope p st) prog []))"
      and "Accessed ''localizedCurrency'' \<notin> set (snd (run n g (render_scope p st) prog []))"
    using getters_read_none [OF that] calls by (simp add: render_scope_def)
  from name cur calls none show ?thesis by simp
qed

theorem render_scope_lazy_parameters_witness:
  "Accessed ''localizedName''
     \<notin> set (snd (run 3 exampleLocalization (render_scope yellowCase initialState)
                   (exampleLocalization ''quantityLabel'') []))
   \<and> Accessed ''localizedCurrency''
     \<notin> set (snd (run 3 exampleLocalization (render_scope yellowCase initialState)
                   (exampleLocalization ''quantityLabel'') []))
   \<and> calls_of (snd (run 3 exampleLocalization (render_scope yellowCase initialState)
                      (exampleLocalization ''quantityLabel'') [])) = []
   \<and> run 3 exampleLocalization (render_scope yellowCase initialState)
        (exampleLocalization ''quantityLabel'') []
       = (Some ''Quantity:'', [])
   \<and> run 4 exampleLocalization (render_scope yellowCase initialState)
        (exampleLocalization ''price'') []
       = (Some ''Price: $'',
          [Accessed ''localizedCurrency'', Called ''USD'', Accessed ''price''])"
proof -
  let ?scope = "render_scope yellowCase initialState"
  have q: "run 3 exampleLocalization ?scope (exampleLocalization ''quantityLabel'') []
         = (Some ''Quantity:'', [])"
    by (simp add: exampleLocalization_def eval_nat_numeral)
  have pr: "run 4 exampleLocalization ?scope (exampleLocalization ''price'') []
          = (Some ''Price: $'',
             [Accessed ''localizedCurrency'', Called ''USD'', Accessed ''price''])"
    by (simp add: exampleLocalization_def eval_nat_numeral render_scope_def
          localizationScope_def yellowCase_def param_of_def)
  from q have a: "Accessed ''localizedName''
                    \<notin> set (snd (run 3 exampleLocalization ?scope
                                  (exampleLocalization ''quantityLabel'') []))"
    and b: "Accessed ''localizedCurrency''
              \<notin> set (snd (run 3 exampleLocalization ?scope
                            (exampleLocalization ''quantityLabel'') []))"
    by simp_all
  have "calls_of (snd (run 3 exampleLocalization ?scope
                         (exampleLocalization ''quantityLabel'') [])) = []"
    using render_scope_lazy_parameters
      [of yellowCase initialState 3 exampleLocalization _ _
          "exampleLocalization ''quantityLabel''",
       THEN conjunct2, THEN conjunct2, THEN conjunct2, THEN conjunct2, THEN conjunct2]
      a b
    by blast
  with a b q pr show ?thesis by blast
qed

end
